theory Spec2Isabelle
  imports Complex_Main
begin

section \<open>Python values and exceptions\<close>

text \<open>
  The analyzer (\<^verbatim>\<open>queue_analyzer.py\<close>) computes with Python floats and unbounded Python
  integers. The embedding keeps every exception the source can raise as a value and
  idealises the arithmetic on finite floats:
  \<^item> a finite float is a \<open>real\<close>; rounding, underflow and the silent overflow of
    \<open>+\<close>, \<open>*\<close> and \<open>/\<close> to infinity are abstracted, and the inputs range over finite
    values only;
  \<^item> a Python \<open>int\<close> is an \<open>int\<close>; mixed arithmetic converts it to a float first, and
    that conversion raises \<open>OverflowError\<close> exactly for the integers that round to
    \<open>2^1024\<close> or beyond, that is from \<open>2^1024 - 2^970\<close> on;
  \<^item> \<open>math.pow\<close> raises \<open>OverflowError\<close> when its result leaves the double range (decided
    on the exact value of the power, against the same threshold) and
    \<open>ValueError\<close> for zero to a negative power; float division by zero raises
    \<open>ZeroDivisionError\<close>; \<open>math.factorial\<close> of a negative integer raises \<open>ValueError\<close>;
  \<^item> the only non-finite value the source writes is \<open>float('inf')\<close>, so the fields of the
    returned metrics are either finite or \<open>PInf\<close>.
\<close>

datatype error =
    HTTPException nat string
  | ZeroDivisionError
  | OverflowError
  | ValueError
  | TypeError

datatype pyfloat = Fin real | PInf

definition bind_result :: "error + 'a \<Rightarrow> ('a \<Rightarrow> error + 'b) \<Rightarrow> error + 'b" where
  "bind_result r f = (case r of Inl e \<Rightarrow> Inl e | Inr v \<Rightarrow> f v)"

text \<open>The least magnitude that no longer converts to a double.\<close>

definition dbl_overflow :: int where
  "dbl_overflow = 2 ^ 1024 - 2 ^ 970"

definition int_to_float :: "int \<Rightarrow> error + real" where
  "int_to_float n = (if dbl_overflow \<le> \<bar>n\<bar> then Inl OverflowError else Inr (of_int n))"

definition float_div :: "real \<Rightarrow> real \<Rightarrow> error + real" where
  "float_div x y = (if y = 0 then Inl ZeroDivisionError else Inr (x / y))"

text \<open>Mixed operands: the integer is converted, then the float operation runs.\<close>

definition float_div_int :: "real \<Rightarrow> int \<Rightarrow> error + real" where
  "float_div_int x n = bind_result (int_to_float n) (\<lambda>d. float_div x d)"

definition int_div_float :: "int \<Rightarrow> real \<Rightarrow> error + real" where
  "int_div_float n y = bind_result (int_to_float n) (\<lambda>x. float_div x y)"

definition int_sub_float :: "int \<Rightarrow> real \<Rightarrow> error + real" where
  "int_sub_float n y = bind_result (int_to_float n) (\<lambda>x. Inr (x - y))"

definition int_mul_float :: "int \<Rightarrow> real \<Rightarrow> error + real" where
  "int_mul_float n y = bind_result (int_to_float n) (\<lambda>x. Inr (x * y))"

text \<open>
  \<^verbatim>\<open>math.pow(x, y)\<close> with an integer exponent, as every call of the source has: the
  exponent is converted to a float, zero to a negative power is a domain error, and a
  result outside the double range is a range error.
\<close>

definition math_pow :: "real \<Rightarrow> int \<Rightarrow> error + real" where
  "math_pow x y =
     bind_result (int_to_float y) (\<lambda>_.
       if x = 0 \<and> y < 0 then Inl ValueError
       else if real_of_int dbl_overflow \<le> \<bar>x powi y\<bar> then Inl OverflowError
       else Inr (x powi y))"

text \<open>\<^verbatim>\<open>def factorial(n): return math.factorial(n)\<close>: an exact integer.\<close>

definition factorial :: "int \<Rightarrow> error + int" where
  "factorial n = (if n < 0 then Inl ValueError else Inr (fact (nat n)))"

text \<open>\<^verbatim>\<open>range(c)\<close> and \<^verbatim>\<open>sum(f(k) for k in ...)\<close>, which stops at the first exception.\<close>

definition range_py :: "int \<Rightarrow> int list" where
  "range_py n = map int [0..<nat n]"

fun sum_gen :: "(int \<Rightarrow> error + real) \<Rightarrow> int list \<Rightarrow> real \<Rightarrow> error + real" where
  "sum_gen f [] acc = Inr acc"
| "sum_gen f (k # ks) acc =
     (case f k of Inl e \<Rightarrow> Inl e | Inr t \<Rightarrow> sum_gen f ks (acc + t))"

section \<open>The closed-form formulas\<close>

text \<open>The expression \<^verbatim>\<open>math.pow(a, k) / factorial(k)\<close>.\<close>

definition pow_over_fact :: "real \<Rightarrow> int \<Rightarrow> error + real" where
  "pow_over_fact a k =
     bind_result (math_pow a k) (\<lambda>p.
     bind_result (factorial k) (\<lambda>f.
     float_div_int p f))"

text \<open>
  \<^verbatim>\<open>
  def calculate_p0(a, c):
      sum_term = sum(math.pow(a, k) / factorial(k) for k in range(c))
      last_term = (math.pow(a, c) / factorial(c)) * (c / (c - a))
      return 1.0 / (sum_term + last_term)
  \<close>
\<close>

definition calculate_p0 :: "real \<Rightarrow> int \<Rightarrow> error + real" where
  "calculate_p0 a c =
     bind_result (sum_gen (pow_over_fact a) (range_py c) 0) (\<lambda>sum_term.
     bind_result (pow_over_fact a c) (\<lambda>q.
     bind_result (int_sub_float c a) (\<lambda>d.
     bind_result (int_div_float c d) (\<lambda>r.
     let last_term = q * r in
     float_div 1 (sum_term + last_term)))))"

text \<open>
  \<^verbatim>\<open>
  def calculate_erlang_c(a, c, rho):
      if rho >= 1.0:
          return 1.0
      p0 = calculate_p0(a, c)
      numerator = math.pow(a, c) / factorial(c)
      denominator = 1 - rho
      return (numerator * p0) / denominator
  \<close>
\<close>

definition calculate_erlang_c :: "real \<Rightarrow> int \<Rightarrow> real \<Rightarrow> error + real" where
  "calculate_erlang_c a c rho =
     (if rho \<ge> 1 then Inr 1
      else
        bind_result (calculate_p0 a c) (\<lambda>p0.
        bind_result (pow_over_fact a c) (\<lambda>numerator.
        let denominator = 1 - rho in
        float_div (numerator * p0) denominator)))"

section \<open>The state-probability endpoint\<close>

record state_entry =
  state :: int
  probability :: real
  customers_in_queue :: int

text \<open>The returned dictionary, with its keys \<open>p0\<close>, \<open>states\<close>, \<open>traffic_intensity\<close>, \<open>utilization\<close>.\<close>

record distribution =
  dist_p0 :: real
  states :: "state_entry list"
  dist_traffic_intensity :: real
  dist_utilization :: real

text \<open>
  The body of the loop over \<open>n\<close>:
  \<^verbatim>\<open>
  if n < c: pn = (math.pow(a, n) / factorial(n)) * p0
  else:     pn = (math.pow(a, n) / (factorial(c) * math.pow(c, n - c))) * p0
  \<close>
\<close>

definition state_probability :: "real \<Rightarrow> int \<Rightarrow> real \<Rightarrow> int \<Rightarrow> error + real" where
  "state_probability a c p0 n =
     (if n < c then
        bind_result (pow_over_fact a n) (\<lambda>q. Inr (q * p0))
      else
        bind_result (math_pow a n) (\<lambda>num.
        bind_result (factorial c) (\<lambda>fc.
        bind_result (int_to_float c) (\<lambda>cf.
        bind_result (math_pow cf (n - c)) (\<lambda>pc.
        bind_result (int_mul_float fc pc) (\<lambda>den.
        bind_result (float_div num den) (\<lambda>q.
        Inr (q * p0))))))))"

fun states_loop :: "real \<Rightarrow> int \<Rightarrow> real \<Rightarrow> int list \<Rightarrow> error + state_entry list" where
  "states_loop a c p0 [] = Inr []"
| "states_loop a c p0 (n # ns) =
     (case state_probability a c p0 n of
        Inl e \<Rightarrow> Inl e
      | Inr pn \<Rightarrow>
          (case states_loop a c p0 ns of
             Inl e \<Rightarrow> Inl e
           | Inr es \<Rightarrow>
               Inr (\<lparr>state = n, probability = pn, customers_in_queue = max 0 (n - c)\<rparr> # es)))"

definition get_state_probabilities :: "real \<Rightarrow> real \<Rightarrow> int \<Rightarrow> int \<Rightarrow> error + distribution" where
  "get_state_probabilities lambda_rate mu_rate c_servers max_states =
     (let lam = lambda_rate; mu = mu_rate; c = c_servers in
      bind_result (float_div lam mu) (\<lambda>a.
      bind_result (int_mul_float c mu) (\<lambda>cmu.
      bind_result (float_div lam cmu) (\<lambda>rho.
      if rho \<ge> 1 then Inl (HTTPException 400 ''System is unstable (rho >= 1)'')
      else
        bind_result (calculate_p0 a c) (\<lambda>p0.
        bind_result (states_loop a c p0 (range_py (max_states + 1))) (\<lambda>probabilities.
        Inr \<lparr>dist_p0 = p0, states = probabilities,
             dist_traffic_intensity = a, dist_utilization = rho\<rparr>))))))"

section \<open>The request and response records\<close>

text \<open>
  \<^verbatim>\<open>QueueParameters\<close> and \<^verbatim>\<open>QueueMetrics\<close>. The simulation time is optional in the
  source, so it may be \<open>None\<close>.
\<close>

record queue_parameters =
  lambda_rate :: real
  mu_rate :: real
  c_servers :: int
  simulation_time :: "real option"

record queue_metrics =
  rho :: pyfloat
  traffic_intensity :: pyfloat
  p0 :: pyfloat
  erlang_c :: pyfloat
  lq :: pyfloat
  wq :: pyfloat
  l :: pyfloat
  w :: pyfloat
  utilization :: pyfloat
  stable :: bool

section \<open>The analysis endpoint\<close>

text \<open>
  \<^verbatim>\<open>analyze_queue(params)\<close>: the validation, the saturated result for \<open>rho >= 1\<close>, and the
  closed-form metrics otherwise. The factor 60 is the source's.
\<close>

definition analyze_queue :: "queue_parameters \<Rightarrow> error + queue_metrics" where
  "analyze_queue params =
     (let lam = lambda_rate params; mu = mu_rate params; c = c_servers params in
      if lam \<le> 0 \<or> mu \<le> 0 \<or> c \<le> 0
      then Inl (HTTPException 400 ''Parameters must be positive'')
      else
        bind_result (int_mul_float c mu) (\<lambda>cmu.
        bind_result (float_div lam cmu) (\<lambda>rho.
        bind_result (float_div lam mu) (\<lambda>traffic_intensity.
        let stable = (rho < 1) in
        if \<not> stable then
          Inr \<lparr>rho = Fin rho, traffic_intensity = Fin traffic_intensity,
               p0 = Fin 0, erlang_c = Fin 1,
               lq = PInf, wq = PInf, l = PInf, w = PInf,
               utilization = Fin (rho * 100), stable = False\<rparr>
        else
          bind_result (calculate_p0 traffic_intensity c) (\<lambda>p0.
          bind_result (calculate_erlang_c traffic_intensity c rho) (\<lambda>erlang_c.
          bind_result (int_mul_float c mu) (\<lambda>cmu'.
          bind_result (float_div erlang_c (cmu' - lam)) (\<lambda>t.
          let wq = t * 60; lq = lam * (wq / 60) in
          bind_result (float_div 60 mu) (\<lambda>s.
          let w = wq + s; l = lam * (w / 60) in
          Inr \<lparr>rho = Fin rho, traffic_intensity = Fin traffic_intensity,
               p0 = Fin p0, erlang_c = Fin erlang_c,
               lq = Fin lq, wq = Fin wq, l = Fin l, w = Fin w,
               utilization = Fin (rho * 100), stable = True\<rparr>)))))))))"

section \<open>The simulation endpoint\<close>

text \<open>
  The global generator is made explicit as a tape: the list of standard exponential
  variates it would hand out, in order. \<^verbatim>\<open>np.random.exponential(scale)\<close> rejects a negative
  scale, and otherwise consumes one variate and returns it times the scale. A run that
  needs more variates than the tape holds has no result in the model (\<open>None\<close>).
\<close>

type_synonym tape = "real list"

definition np_random_exponential :: "real \<Rightarrow> tape \<Rightarrow> (error + real \<times> tape) option" where
  "np_random_exponential scale tape =
     (if scale < 0 then Some (Inl ValueError)
      else case tape of [] \<Rightarrow> None | e # rest \<Rightarrow> Some (Inr (scale * e, rest)))"

text \<open>
  \<^verbatim>\<open>
  while current_time < sim_time:
      interarrival = np.random.exponential(1 / lam)
      current_time += interarrival
      if current_time < sim_time:
          arrivals.append(current_time)
  \<close>
\<close>

function gen_arrivals ::
  "real \<Rightarrow> real \<Rightarrow> real \<Rightarrow> real list \<Rightarrow> tape \<Rightarrow> (error + real list \<times> tape) option" where
  "gen_arrivals lam sim_time current_time arrivals tape =
     (if current_time < sim_time then
        (case float_div 1 lam of
           Inl e \<Rightarrow> Some (Inl e)
         | Inr scale \<Rightarrow>
             (case np_random_exponential scale tape of
                None \<Rightarrow> None
              | Some (Inl e) \<Rightarrow> Some (Inl e)
              | Some (Inr (interarrival, rest)) \<Rightarrow>
                  gen_arrivals lam sim_time (current_time + interarrival)
                    (if current_time + interarrival < sim_time
                     then arrivals @ [current_time + interarrival] else arrivals)
                    rest))
      else Some (Inr (arrivals, tape)))"
  by pat_completeness auto
termination
  by (relation "measure (\<lambda>(lam, sim_time, current_time, arrivals, tape). length tape)")
     (auto simp: np_random_exponential_def split: if_splits list.splits)

text \<open>The loop equation is unfolded by hand, one iteration at a time.\<close>

declare gen_arrivals.simps [simp del]

text \<open>
  \<^verbatim>\<open>min(range(c), key=lambda i: servers_busy_until[i])\<close>: the first index with the least
  key; \<open>ValueError\<close> on an empty range.
\<close>

fun py_min_from :: "(nat \<Rightarrow> real) \<Rightarrow> nat list \<Rightarrow> nat \<Rightarrow> nat" where
  "py_min_from key [] best = best"
| "py_min_from key (i # rest) best = py_min_from key rest (if key i < key best then i else best)"

definition py_min :: "nat list \<Rightarrow> (nat \<Rightarrow> real) \<Rightarrow> error + nat" where
  "py_min xs key = (case xs of [] \<Rightarrow> Inl ValueError | i # rest \<Rightarrow> Inr (py_min_from key rest i))"

text \<open>
  \<^verbatim>\<open>
  for arrival_time in arrivals:
      earliest_server = min(range(c), key=lambda i: servers_busy_until[i])
      service_start = max(arrival_time, servers_busy_until[earliest_server])
      wait_time = service_start - arrival_time
      wait_times.append(wait_time)
      service_duration = np.random.exponential(1 / mu)
      servers_busy_until[earliest_server] = service_start + service_duration
  \<close>
\<close>

fun serve ::
  "real \<Rightarrow> int \<Rightarrow> real list \<Rightarrow> real list \<Rightarrow> real list \<Rightarrow> tape
     \<Rightarrow> (error + real list \<times> real list \<times> tape) option" where
  "serve mu c [] servers_busy_until wait_times tape =
     Some (Inr (wait_times, servers_busy_until, tape))"
| "serve mu c (arrival_time # rest) servers_busy_until wait_times tape =
     (case py_min [0..<nat c] (\<lambda>i. servers_busy_until ! i) of
        Inl e \<Rightarrow> Some (Inl e)
      | Inr earliest_server \<Rightarrow>
          (let service_start = max arrival_time (servers_busy_until ! earliest_server);
               wait_time = service_start - arrival_time
           in case float_div 1 mu of
                Inl e \<Rightarrow> Some (Inl e)
              | Inr scale \<Rightarrow>
                  (case np_random_exponential scale tape of
                     None \<Rightarrow> None
                   | Some (Inl e) \<Rightarrow> Some (Inl e)
                   | Some (Inr (service_duration, tape')) \<Rightarrow>
                       serve mu c rest
                         (servers_busy_until[earliest_server := service_start + service_duration])
                         (wait_times @ [wait_time]) tape')))"

record simulation_result =
  total_arrivals :: nat
  total_served :: nat
  avg_wait_time_minutes :: real
  max_wait_time_minutes :: real
  wait_times_sample :: "real list"

definition np_mean :: "real list \<Rightarrow> real" where
  "np_mean xs = sum_list xs / real (length xs)"

definition np_max :: "real list \<Rightarrow> real" where
  "np_max xs = fold max (tl xs) (hd xs)"

text \<open>
  \<^verbatim>\<open>simulate_queue(params)\<close>. A missing simulation time fails at the first comparison
  \<^verbatim>\<open>current_time < sim_time\<close> with \<open>TypeError\<close>. No parameter is validated.
\<close>

definition simulate_queue :: "queue_parameters \<Rightarrow> tape \<Rightarrow> (error + simulation_result) option" where
  "simulate_queue params tape =
     (let lam = lambda_rate params; mu = mu_rate params; c = c_servers params in
      case simulation_time params of
        None \<Rightarrow> Some (Inl TypeError)
      | Some sim_time \<Rightarrow>
          (case gen_arrivals lam sim_time 0 [] tape of
             None \<Rightarrow> None
           | Some (Inl e) \<Rightarrow> Some (Inl e)
           | Some (Inr (arrivals, tape')) \<Rightarrow>
               (case serve mu c arrivals (replicate (nat c) 0) [] tape' of
                  None \<Rightarrow> None
                | Some (Inl e) \<Rightarrow> Some (Inl e)
                | Some (Inr (wait_times, servers, tape'')) \<Rightarrow>
                    Some (Inr
                      \<lparr>total_arrivals = length arrivals,
                       total_served = length wait_times,
                       avg_wait_time_minutes =
                         (if wait_times \<noteq> [] then np_mean wait_times * 60 else 0),
                       max_wait_time_minutes =
                         (if wait_times \<noteq> [] then np_max wait_times * 60 else 0),
                       wait_times_sample = map (\<lambda>w. w * 60) (take 10 wait_times)\<rparr>))))"

section \<open>The formulas of the specification\<close>

text \<open>
  The empty-state probability as the specification writes it:
  \<open>p0 = 1 / (\<Sum>k<c. a^k / k! + (a^c / c!) * (c / (c - a)))\<close>.
\<close>

definition p0_formula :: "real \<Rightarrow> nat \<Rightarrow> real" where
  "p0_formula a c =
     1 / ((\<Sum>k<c. a ^ k / fact k) + (a ^ c / fact c) * (real c / (real c - a)))"



text \<open>
  The arrival stream as the specification describes it: the interarrival gaps are the
  variates of the tape scaled by \<open>1 / \<lambda>\<close>, and the clock accumulates them from the start
  time.
\<close>

definition interarrival_gaps :: "real \<Rightarrow> tape \<Rightarrow> real list" where
  "interarrival_gaps lam tape = map (\<lambda>e. 1 / lam * e) tape"

fun running_clock :: "real \<Rightarrow> real list \<Rightarrow> real list" where
  "running_clock t [] = []"
| "running_clock t (g # gs) = (t + g) # running_clock (t + g) gs"

section \<open>Conversion of factorials and powers\<close>


lemma fact_170_converts: "(fact 170 :: int) < dbl_overflow"
  by (simp add: dbl_overflow_def fact_numeral)

lemma fact_171_overflows: "dbl_overflow \<le> (fact 171 :: int)"
  by (simp add: dbl_overflow_def fact_numeral)

lemma dbl_overflow_gt: "171 < dbl_overflow"
  by (simp add: dbl_overflow_def)

lemma int_to_float_small: "\<bar>n\<bar> < dbl_overflow \<Longrightarrow> int_to_float n = Inr (of_int n)"
  by (simp add: int_to_float_def)

lemma int_to_float_fact:
  assumes "k \<le> 170"
  shows "int_to_float (fact k) = Inr (fact k)"
proof -
  have "(fact k :: int) \<le> fact 170"
    using assms by (simp add: fact_mono)
  then have "\<bar>fact k :: int\<bar> < dbl_overflow"
    using fact_170_converts by simp
  then show ?thesis
    by (simp add: int_to_float_small)
qed

lemma int_to_float_fact_overflow:
  assumes "171 \<le> k"
  shows "int_to_float (fact k) = Inl OverflowError"
proof -
  have "(fact 171 :: int) \<le> fact k"
    using assms by (simp add: fact_mono)
  then show ?thesis
    using fact_171_overflows by (simp add: int_to_float_def)
qed

lemma math_pow_nat:
  assumes "0 \<le> k" "k < dbl_overflow" "\<bar>x ^ nat k\<bar> < real_of_int dbl_overflow"
  shows "math_pow x k = Inr (x ^ nat k)"
  using assms by (simp add: math_pow_def int_to_float_def bind_result_def power_int_def)

lemma pow_over_fact_ok:
  assumes "0 \<le> k" "k \<le> 170" "\<bar>a ^ nat k\<bar> < real_of_int dbl_overflow"
  shows "pow_over_fact a k = Inr (a ^ nat k / fact (nat k))"
proof -
  have "k < dbl_overflow" using assms(2) dbl_overflow_gt by simp
  then have "math_pow a k = Inr (a ^ nat k)"
    using assms by (simp add: math_pow_nat)
  moreover have "int_to_float (fact (nat k)) = Inr (fact (nat k))"
    using assms by (simp add: int_to_float_fact)
  ultimately show ?thesis
    using assms by (simp add: pow_over_fact_def factorial_def float_div_int_def float_div_def bind_result_def)
qed

lemma sum_gen_ok:
  "(\<And>k. k \<in> set ks \<Longrightarrow> f k = Inr (g k)) \<Longrightarrow> sum_gen f ks acc = Inr (acc + sum_list (map g ks))"
  by (induction ks arbitrary: acc) (simp_all add: add.assoc)

lemma sum_list_range_py: "sum_list (map g (range_py c)) = (\<Sum>k<nat c. g (int k))"
  by (simp add: range_py_def comp_def sum_list_sum_nth atLeast0LessThan interv_sum_list_conv_sum_set_nat)


lemma power_le_max_one:
  fixes a :: real
  assumes "0 \<le> a" "k \<le> n"
  shows "a ^ k \<le> max 1 (a ^ n)"
proof (cases "a \<le> 1")
  case True
  then have "a ^ k \<le> 1" using assms(1) by (simp add: power_le_one)
  then show ?thesis by simp
next
  case False
  then have "a ^ k \<le> a ^ n" using assms(2) by (simp add: power_increasing)
  then show ?thesis by simp
qed

lemma one_lt_dbl_overflow: "1 < real_of_int dbl_overflow"
proof -
  have "(1::int) < dbl_overflow" by (simp add: dbl_overflow_def)
  then show ?thesis by linarith
qed

lemma pow_in_range:
  fixes a :: real
  assumes "0 \<le> a" "k \<le> n" "a ^ n < real_of_int dbl_overflow"
  shows "\<bar>a ^ k\<bar> < real_of_int dbl_overflow"
proof -
  have "a ^ k \<le> max 1 (a ^ n)" using assms by (simp add: power_le_max_one)
  moreover have "max 1 (a ^ n) < real_of_int dbl_overflow"
    using assms(3) one_lt_dbl_overflow by (metis max_less_iff_conj)
  moreover have "0 \<le> a ^ k" using assms(1) by simp
  ultimately show ?thesis by linarith
qed

lemma sum_terms_ok:
  assumes "c \<le> 170" "0 \<le> a" "a ^ nat c < real_of_int dbl_overflow"
  shows "sum_gen (pow_over_fact a) (range_py c) 0 = Inr (\<Sum>k<nat c. a ^ k / fact k)"
proof -
  have "pow_over_fact a k = Inr (a ^ nat k / fact (nat k))" if "k \<in> set (range_py c)" for k
  proof -
    from that have k: "0 \<le> k" "k < c" by (auto simp: range_py_def)
    then have "\<bar>a ^ nat k\<bar> < real_of_int dbl_overflow"
      using assms by (intro pow_in_range [where n = "nat c"]) simp_all
    then show ?thesis using k assms(1) by (simp add: pow_over_fact_ok)
  qed
  then have "sum_gen (pow_over_fact a) (range_py c) 0 =
      Inr (0 + sum_list (map (\<lambda>k. a ^ nat k / fact (nat k)) (range_py c)))"
    by (rule sum_gen_ok)
  then show ?thesis by (simp add: sum_list_range_py)
qed

lemma erlang_sum_ge_one:
  fixes a :: real
  assumes "0 \<le> a" "0 < c"
  shows "1 \<le> (\<Sum>k<c. a ^ k / fact k)"
proof -
  have "(\<Sum>k\<in>{0}. a ^ k / fact k) \<le> (\<Sum>k<c. a ^ k / fact k)"
    using assms by (intro sum_mono2) auto
  then show ?thesis by simp
qed

lemma calculate_p0_value:
  assumes "1 \<le> c" "c \<le> 170" "0 \<le> a" "a < real_of_int c"
    and "a ^ nat c < real_of_int dbl_overflow"
  shows "calculate_p0 a c = Inr (p0_formula a (nat c))"
proof -
  have s: "sum_gen (pow_over_fact a) (range_py c) 0 = Inr (\<Sum>k<nat c. a ^ k / fact k)"
    using assms by (simp add: sum_terms_ok)
  have "\<bar>a ^ nat c\<bar> < real_of_int dbl_overflow"
    using assms by (intro pow_in_range [where n = "nat c"]) simp_all
  then have q: "pow_over_fact a c = Inr (a ^ nat c / fact (nat c))"
    using assms by (simp add: pow_over_fact_ok)
  have "\<bar>c\<bar> < dbl_overflow" using assms(1,2) dbl_overflow_gt by simp
  then have cf: "int_to_float c = Inr (real_of_int c)"
    by (simp add: int_to_float_small)
  have d: "int_sub_float c a = Inr (real_of_int c - a)"
    by (simp add: int_sub_float_def cf bind_result_def)
  have r: "int_div_float c (real_of_int c - a) = Inr (real_of_int c / (real_of_int c - a))"
    using assms(4) by (simp add: int_div_float_def cf bind_result_def float_div_def)
  have "1 \<le> (\<Sum>k<nat c. a ^ k / fact k)"
    using assms by (simp add: erlang_sum_ge_one)
  moreover have "0 \<le> (a ^ nat c / fact (nat c)) * (real_of_int c / (real_of_int c - a))"
    using assms by simp
  ultimately have pos: "(\<Sum>k<nat c. a ^ k / fact k)
      + (a ^ nat c / fact (nat c)) * (real_of_int c / (real_of_int c - a)) \<noteq> 0"
    by linarith
  have rc: "real (nat c) = real_of_int c" using assms(1) by simp
  show ?thesis
    using pos by (simp add: calculate_p0_def s q d r bind_result_def float_div_def p0_formula_def rc)
qed

lemma pow_over_fact_error:
  assumes "0 \<le> k" "pow_over_fact a k = Inl e"
  shows "e = OverflowError"
  using assms
  by (auto simp: pow_over_fact_def math_pow_def factorial_def float_div_int_def float_div_def
      int_to_float_def bind_result_def split: if_splits sum.splits)

lemma pow_over_fact_overflow:
  assumes "171 \<le> k"
  shows "pow_over_fact a k = Inl OverflowError"
proof (cases "pow_over_fact a k")
  case (Inl e)
  then show ?thesis using assms pow_over_fact_error [of k a e] by simp
next
  case (Inr v)
  have "int_to_float (fact (nat k)) = Inl OverflowError"
    using assms by (simp add: int_to_float_fact_overflow)
  then have False
    using Inr assms
    by (auto simp: pow_over_fact_def factorial_def float_div_int_def bind_result_def
        split: sum.splits if_splits)
  then show ?thesis ..
qed

lemma sum_gen_error:
  assumes "\<And>k e. k \<in> set ks \<Longrightarrow> f k = Inl e \<Longrightarrow> e = E" "sum_gen f ks acc = Inl e"
  shows "e = E"
  using assms by (induction ks arbitrary: acc) (auto split: sum.splits)

lemma calculate_p0_overflow:
  assumes "171 \<le> c"
  shows "calculate_p0 a c = Inl OverflowError"
proof -
  have q: "pow_over_fact a c = Inl OverflowError"
    using assms by (rule pow_over_fact_overflow)
  show ?thesis
  proof (cases "sum_gen (pow_over_fact a) (range_py c) 0")
    case (Inl e)
    have "e = OverflowError"
    proof (rule sum_gen_error [OF _ Inl])
      fix k e' assume "k \<in> set (range_py c)" "pow_over_fact a k = Inl e'"
      then show "e' = OverflowError"
        using pow_over_fact_error [of k a e'] by (auto simp: range_py_def)
    qed
    then show ?thesis using Inl by (simp add: calculate_p0_def bind_result_def)
  next
    case (Inr s)
    then show ?thesis using q by (simp add: calculate_p0_def bind_result_def)
  qed
qed


lemma calculate_erlang_c_overflow:
  assumes "171 \<le> c" "r < 1"
  shows "calculate_erlang_c a c r = Inl OverflowError"
  using assms by (simp add: calculate_erlang_c_def calculate_p0_overflow bind_result_def)

lemma calculate_p0_returns:
  assumes "calculate_p0 a c = Inr p"
  shows "1 \<le> c \<and> c \<le> 170 \<and> \<bar>a ^ nat c\<bar> < real_of_int dbl_overflow
     \<and> pow_over_fact a c = Inr (a ^ nat c / fact (nat c))"
proof -
  from assms obtain q where q: "pow_over_fact a c = Inr q"
    by (auto simp: calculate_p0_def bind_result_def split: sum.splits)
  then have c0: "0 \<le> c"
    by (auto simp: pow_over_fact_def factorial_def bind_result_def split: sum.splits if_splits)
  have c170: "c \<le> 170"
  proof (rule ccontr)
    assume "\<not> c \<le> 170"
    then have "171 \<le> c" by simp
    then show False using q pow_over_fact_overflow [of c a] by simp
  qed
  have rng: "\<bar>a ^ nat c\<bar> < real_of_int dbl_overflow"
    using q c0
    by (auto simp: pow_over_fact_def math_pow_def bind_result_def power_int_def
        split: sum.splits if_splits)
  have c1: "c \<noteq> 0"
  proof
    assume "c = 0"
    then show False
      using assms
      by (auto simp: calculate_p0_def range_py_def pow_over_fact_def math_pow_def factorial_def
          float_div_int_def int_sub_float_def int_div_float_def int_to_float_def float_div_def
          bind_result_def dbl_overflow_def split: sum.splits if_splits)
  qed
  show ?thesis
    using c0 c1 c170 rng by (simp add: pow_over_fact_ok)
qed

section \<open>Claim C1: the empty-state probability\<close>

text \<open>
  C1, as stated: for every offered load \<open>a\<close> and server count \<open>c\<close> with \<open>a < c\<close>,
  \<open>calculate_p0 a c\<close> returns the formula of the specification. It fails from 171 servers
  on: \<open>171!\<close> does not convert to a float, and the division
  \<^verbatim>\<open>math.pow(a, c) / factorial(c)\<close> raises \<open>OverflowError\<close>.
\<close>

theorem calculate_p0_counterexample:
  "(1::real) < real_of_int 171 \<and> calculate_p0 1 171 = Inl OverflowError"
  by (simp add: calculate_p0_overflow)

text \<open>
  C1, amended: for an offered load \<open>0 \<le> a < c\<close> and a server count \<open>1 \<le> c \<le> 170\<close> whose
  power \<open>a^c\<close> stays below the double overflow threshold, \<open>calculate_p0 a c\<close> returns
  \<open>1 / (\<Sum>k<c. a^k / k! + (a^c / c!) * (c / (c - a)))\<close>.
\<close>

theorem calculate_p0_formula:
  assumes "1 \<le> c" "c \<le> 170" "0 \<le> a" "a < real_of_int c"
    and "a ^ nat c < real_of_int dbl_overflow"
  shows "calculate_p0 a c = Inr (p0_formula a (nat c))"
  using assms by (rule calculate_p0_value)

text \<open>The amended C1 at \<open>a = 2\<close>, \<open>c = 3\<close>: the sum is 5, the last term 4.\<close>

theorem calculate_p0_formula_witness:
  "(1::int) \<le> 3 \<and> (3::int) \<le> 170 \<and> (0::real) \<le> 2 \<and> (2::real) < real_of_int 3
     \<and> (2::real) ^ nat 3 < real_of_int dbl_overflow
     \<and> calculate_p0 2 3 = Inr (1 / 9)"
proof -
  have h: "(2::real) ^ nat 3 < real_of_int dbl_overflow"
    by (simp add: dbl_overflow_def)
  have "p0_formula 2 (nat 3) = 1 / 9"
    by (simp add: p0_formula_def eval_nat_numeral)
  then show ?thesis
    using h calculate_p0_formula [of 3 2] by simp
qed

section \<open>Claim C9: overflow of the factorial and power terms\<close>

text \<open>
  C9, as stated: for every stable parameter set with up to a few hundred servers the two
  formulas do not overflow, the terms \<open>a^k / k!\<close> being a running product. The source
  evaluates \<^verbatim>\<open>math.pow\<close> and \<^verbatim>\<open>factorial\<close> separately, and at \<open>a = 100\<close>, \<open>c = 200\<close>
  (utilisation one half) both formulas raise \<open>OverflowError\<close>.
\<close>

theorem running_product_counterexample:
  "(100::real) / real_of_int 200 < 1 \<and> calculate_p0 100 200 = Inl OverflowError
     \<and> calculate_erlang_c 100 200 (100 / real_of_int 200) = Inl OverflowError"
  by (simp add: calculate_p0_overflow calculate_erlang_c_overflow)

text \<open>
  C9, amended: the terms are evaluated as a power divided by a factorial. For
  \<open>1 \<le> c \<le> 170\<close> and \<open>0 \<le> a < c\<close> with \<open>a^c\<close> below the double overflow threshold both
  formulas return a value (the second at the utilisation \<open>a / c\<close>); from \<open>c = 171\<close> on \<open>calculate_p0\<close> raises \<open>OverflowError\<close> for
  every \<open>a\<close>, and so does \<open>calculate_erlang_c\<close> for every utilisation below one.
\<close>

theorem separate_power_and_factorial_overflow:
  "(1 \<le> c \<and> c \<le> 170 \<and> 0 \<le> a \<and> a < real_of_int c \<and> a ^ nat c < real_of_int dbl_overflow
      \<longrightarrow> (\<exists>p. calculate_p0 a c = Inr p)
        \<and> (\<exists>b. calculate_erlang_c a c (a / real_of_int c) = Inr b))
   \<and> (171 \<le> c \<longrightarrow> calculate_p0 a c = Inl OverflowError
        \<and> (r < 1 \<longrightarrow> calculate_erlang_c a c r = Inl OverflowError))"
proof (intro conjI impI)
  assume h: "1 \<le> c \<and> c \<le> 170 \<and> 0 \<le> a \<and> a < real_of_int c
      \<and> a ^ nat c < real_of_int dbl_overflow"
  then have p: "calculate_p0 a c = Inr (p0_formula a (nat c))"
    by (simp add: calculate_p0_value)
  then show "\<exists>p. calculate_p0 a c = Inr p" by blast
  have q: "pow_over_fact a c = Inr (a ^ nat c / fact (nat c))"
    using calculate_p0_returns [OF p] by simp
  have "a / real_of_int c < 1" "1 - a / real_of_int c \<noteq> 0" using h by simp_all
  then show "\<exists>b. calculate_erlang_c a c (a / real_of_int c) = Inr b"
    unfolding calculate_erlang_c_def p q bind_result_def float_div_def Let_def by simp
next
  assume "171 \<le> c"
  then show "calculate_p0 a c = Inl OverflowError" by (rule calculate_p0_overflow)
next
  assume "171 \<le> c" "r < 1"
  then show "calculate_erlang_c a c r = Inl OverflowError"
    by (rule calculate_erlang_c_overflow)
qed

text \<open>The amended C9 on both sides of the boundary: three servers, and 171 servers.\<close>

theorem separate_power_and_factorial_overflow_witness:
  "(\<exists>p. calculate_p0 2 3 = Inr p) \<and> (\<exists>b. calculate_erlang_c 2 3 (2 / real_of_int 3) = Inr b)
   \<and> calculate_p0 100 171 = Inl OverflowError
   \<and> calculate_erlang_c 100 171 (1 / 2) = Inl OverflowError"
proof -
  have h: "(2::real) ^ nat 3 < real_of_int dbl_overflow"
    by (simp add: dbl_overflow_def)
  show ?thesis
    using h separate_power_and_factorial_overflow [of 3 2 "1 / 2"]
      separate_power_and_factorial_overflow [of 171 100 "1 / 2"]
    by simp
qed

section \<open>Bounds on the formulas\<close>






section \<open>Claim C4: the blocking probability\<close>



section \<open>The analysis endpoint, case by case\<close>



lemma analyze_queue_invalid:
  assumes "lambda_rate params \<le> 0 \<or> mu_rate params \<le> 0 \<or> c_servers params \<le> 0"
  shows "analyze_queue params = Inl (HTTPException 400 ''Parameters must be positive'')"
  using assms by (auto simp: analyze_queue_def Let_def)




section \<open>Claim C2: the saturated result\<close>




section \<open>Claim C5: the metrics of a stable system\<close>



section \<open>The state-probability endpoint, case by case\<close>





















section \<open>Claim C3: the truncated distribution\<close>




section \<open>Claim C7: the refusal of an unstable system\<close>




section \<open>Claim C6: validation of the parameters\<close>

text \<open>
  C6: every exposed operation rejects \<open>\<lambda> \<le> 0\<close>, \<open>\<mu> \<le> 0\<close> or \<open>c \<le> 0\<close> with the
  invalid-parameter error before any computation. \<open>analyze_queue\<close> does
  (\<open>analyze_queue_invalid\<close>); the other two endpoints have no such check. With \<open>\<lambda> = -1\<close>,
  \<open>\<mu> = 1\<close>, \<open>c = 1\<close>, \<open>get_state_probabilities\<close> returns a distribution whose \<open>p0\<close> is 2, and
  \<open>simulate_queue\<close> returns an empty result for a horizon of 0 and raises \<open>ValueError\<close> from
  the generator for a horizon of 100.
\<close>

theorem missing_validation:
  "get_state_probabilities (- 1) 1 1 0 =
     Inr \<lparr>dist_p0 = 2,
          states = [\<lparr>state = 0, probability = 2, customers_in_queue = 0\<rparr>],
          dist_traffic_intensity = - 1, dist_utilization = - 1\<rparr>
   \<and> simulate_queue \<lparr>lambda_rate = - 1, mu_rate = 1, c_servers = 1, simulation_time = Some 0\<rparr> []
       = Some (Inr \<lparr>total_arrivals = 0, total_served = 0, avg_wait_time_minutes = 0,
                    max_wait_time_minutes = 0, wait_times_sample = []\<rparr>)
   \<and> simulate_queue \<lparr>lambda_rate = - 1, mu_rate = 1, c_servers = 1, simulation_time = Some 100\<rparr> []
       = Some (Inl ValueError)"
proof -
  have p: "calculate_p0 (- 1) 1 = Inr 2"
    by (simp add: calculate_p0_def range_py_def pow_over_fact_def math_pow_def factorial_def
        float_div_int_def int_sub_float_def int_div_float_def int_to_float_def float_div_def
        bind_result_def dbl_overflow_def)
  have s: "state_probability (- 1) 1 2 0 = Inr 2"
    by (simp add: state_probability_def pow_over_fact_def math_pow_def factorial_def
        float_div_int_def int_to_float_def float_div_def bind_result_def dbl_overflow_def)
  have a: "get_state_probabilities (- 1) 1 1 0 =
     Inr \<lparr>dist_p0 = 2,
          states = [\<lparr>state = 0, probability = 2, customers_in_queue = 0\<rparr>],
          dist_traffic_intensity = - 1, dist_utilization = - 1\<rparr>"
    by (simp add: get_state_probabilities_def Let_def float_div_def int_mul_float_def
        int_to_float_def dbl_overflow_def bind_result_def p range_py_def s)
  have b: "simulate_queue \<lparr>lambda_rate = - 1, mu_rate = 1, c_servers = 1, simulation_time = Some 0\<rparr> []
       = Some (Inr \<lparr>total_arrivals = 0, total_served = 0, avg_wait_time_minutes = 0,
                    max_wait_time_minutes = 0, wait_times_sample = []\<rparr>)"
    by (simp add: simulate_queue_def Let_def gen_arrivals.simps)
  have c: "simulate_queue \<lparr>lambda_rate = - 1, mu_rate = 1, c_servers = 1, simulation_time = Some 100\<rparr> []
       = Some (Inl ValueError)"
    by (simp add: simulate_queue_def Let_def gen_arrivals.simps float_div_def
        np_random_exponential_def)
  show ?thesis using a b c by simp
qed

section \<open>The arrival loop\<close>

lemma interarrival_gaps_Nil: "interarrival_gaps lam [] = []"
  by (simp add: interarrival_gaps_def)

lemma interarrival_gaps_Cons:
  "interarrival_gaps lam (e # tape) = (1 / lam * e) # interarrival_gaps lam tape"
  by (simp add: interarrival_gaps_def)

lemma gen_arrivals_done:
  "\<not> t < T \<Longrightarrow> gen_arrivals lam T t acc tape = Some (Inr (acc, tape))"
  by (simp add: gen_arrivals.simps)

lemma gen_arrivals_step:
  assumes "t < T" "0 < lam"
  shows "gen_arrivals lam T t acc (e # tape) =
     gen_arrivals lam T (t + 1 / lam * e)
       (if t + 1 / lam * e < T then acc @ [t + 1 / lam * e] else acc) tape"
  using assms
  by (subst gen_arrivals.simps) (simp add: float_div_def np_random_exponential_def)

lemma gen_arrivals_needs_rate:
  assumes "gen_arrivals lam T t acc tape = Some (Inr r)" "t < T"
  shows "0 < lam \<and> tape \<noteq> []"
proof -
  have "lam \<noteq> 0" "\<not> 1 / lam < 0" "tape \<noteq> []"
    using assms
    by (subst (asm) gen_arrivals.simps;
        auto simp: float_div_def np_random_exponential_def split: if_splits list.splits)+
  then show ?thesis by (simp add: not_less)
qed

lemma gen_arrivals_result:
  assumes "gen_arrivals lam T t acc tape = Some (Inr (arrivals, rest))" "t < T"
  shows "arrivals = acc @ takeWhile (\<lambda>x. x < T) (running_clock t (interarrival_gaps lam tape))
     \<and> length (takeWhile (\<lambda>x. x < T) (running_clock t (interarrival_gaps lam tape)))
         < length tape
     \<and> T \<le> running_clock t (interarrival_gaps lam tape)
           ! length (takeWhile (\<lambda>x. x < T) (running_clock t (interarrival_gaps lam tape)))
     \<and> rest = drop (Suc (length (takeWhile (\<lambda>x. x < T)
                  (running_clock t (interarrival_gaps lam tape))))) tape"
  using assms
proof (induction tape arbitrary: t acc)
  case Nil
  then show ?case using gen_arrivals_needs_rate [of lam T t acc "[]"] by simp
next
  case (Cons e tape)
  have lam: "0 < lam"
    using gen_arrivals_needs_rate [OF Cons.prems] by simp
  define t' where "t' = t + 1 / lam * e"
  define clock where "clock = running_clock t' (interarrival_gaps lam tape)"
  have step: "gen_arrivals lam T t acc (e # tape) =
      gen_arrivals lam T t' (if t' < T then acc @ [t'] else acc) tape"
    using gen_arrivals_step [OF Cons.prems(2) lam, of acc e tape] unfolding t'_def .
  have rc: "running_clock t (interarrival_gaps lam (e # tape)) = t' # clock"
    unfolding t'_def clock_def by (simp only: interarrival_gaps_Cons running_clock.simps)
  show ?case
  proof (cases "t' < T")
    case True
    have "gen_arrivals lam T t' (acc @ [t']) tape = Some (Inr (arrivals, rest))"
      using Cons.prems(1) by (simp only: step True if_True)
    from Cons.IH [OF this True] show ?thesis
      unfolding rc clock_def [symmetric] using True by simp
  next
    case False
    have "gen_arrivals lam T t' acc tape = Some (Inr (arrivals, rest))"
      using Cons.prems(1) by (simp only: step False if_False)
    then have "arrivals = acc" "rest = tape"
      using gen_arrivals_done [OF False, of lam acc tape] by simp_all
    then show ?thesis
      unfolding rc using False by simp
  qed
qed

lemma gen_arrivals_returns:
  assumes "0 < lam" "\<exists>x\<in>set (running_clock t (interarrival_gaps lam tape)). T \<le> x"
  shows "\<exists>r. gen_arrivals lam T t acc tape = Some (Inr r)"
  using assms(2)
proof (induction tape arbitrary: t acc)
  case Nil
  then show ?case by (simp add: interarrival_gaps_Nil)
next
  case (Cons e tape)
  show ?case
  proof (cases "t < T")
    case False
    then show ?thesis by (simp add: gen_arrivals_done)
  next
    case True
    define t' where "t' = t + 1 / lam * e"
    have step: "gen_arrivals lam T t acc (e # tape) =
        gen_arrivals lam T t' (if t' < T then acc @ [t'] else acc) tape"
      using gen_arrivals_step [OF True assms(1), of acc e tape] unfolding t'_def .
    have rc: "running_clock t (interarrival_gaps lam (e # tape))
        = t' # running_clock t' (interarrival_gaps lam tape)"
      unfolding t'_def by (simp only: interarrival_gaps_Cons running_clock.simps)
    show ?thesis
    proof (cases "t' < T")
      case False
      then show ?thesis
        by (simp only: step if_False gen_arrivals_done [OF False]) blast
    next
      case lt: True
      have "\<exists>x\<in>set (running_clock t' (interarrival_gaps lam tape)). T \<le> x"
        using Cons.prems lt unfolding rc by auto
      from Cons.IH [OF this, of "acc @ [t']"] show ?thesis
        by (simp only: step lt if_True)
    qed
  qed
qed

lemma gen_arrivals_from_zero:
  assumes "gen_arrivals lam T 0 [] tape = Some (Inr (arrivals, rest))"
  shows "(\<forall>x\<in>set arrivals. x < T)
     \<and> (\<not> 0 < T \<longrightarrow> arrivals = [] \<and> rest = tape)
     \<and> (0 < T \<longrightarrow> 0 < lam
          \<and> arrivals = takeWhile (\<lambda>x. x < T) (running_clock 0 (interarrival_gaps lam tape))
          \<and> length arrivals < length tape
          \<and> T \<le> running_clock 0 (interarrival_gaps lam tape) ! length arrivals
          \<and> rest = drop (Suc (length arrivals)) tape)"
proof (cases "0 < T")
  case False
  then show ?thesis
    using assms gen_arrivals_done [OF False, of lam "[]" tape] by simp
next
  case True
  have lam: "0 < lam" using gen_arrivals_needs_rate [OF assms True] by simp
  from gen_arrivals_result [OF assms True]
  have r: "arrivals = takeWhile (\<lambda>x. x < T) (running_clock 0 (interarrival_gaps lam tape))"
    "length (takeWhile (\<lambda>x. x < T) (running_clock 0 (interarrival_gaps lam tape))) < length tape"
    "T \<le> running_clock 0 (interarrival_gaps lam tape)
           ! length (takeWhile (\<lambda>x. x < T) (running_clock 0 (interarrival_gaps lam tape)))"
    "rest = drop (Suc (length (takeWhile (\<lambda>x. x < T)
                  (running_clock 0 (interarrival_gaps lam tape))))) tape"
    by simp_all
  have "\<forall>x\<in>set arrivals. x < T"
    unfolding r(1) by (auto dest: set_takeWhileD)
  then show ?thesis
    using True lam r(2,3,4) unfolding r(1) [symmetric] using r(1) by simp
qed

lemma gen_arrivals_count:
  assumes "gen_arrivals lam T 0 [] tape = Some (Inr (arrivals, rest))"
  shows "length arrivals =
     (if 0 < T
      then length (takeWhile (\<lambda>x. x < T) (running_clock 0 (interarrival_gaps lam tape)))
      else 0)"
proof (cases "0 < T")
  case True
  from gen_arrivals_result [OF assms True]
  have "arrivals = takeWhile (\<lambda>x. x < T) (running_clock 0 (interarrival_gaps lam tape))"
    by simp
  then show ?thesis using True by simp
next
  case False
  then show ?thesis
    using assms gen_arrivals_done [OF False, of lam "[]" tape] by simp
qed

section \<open>The service loop\<close>






lemma py_min_empty: "n = 0 \<Longrightarrow> py_min [0..<n] key = Inl ValueError"
  by (simp add: py_min_def)







lemma simulate_queue_result:
  assumes "simulate_queue params tape = Some (Inr res)"
  shows "\<exists>T arrivals rest wait_times servers tape'.
      simulation_time params = Some T
    \<and> gen_arrivals (lambda_rate params) T 0 [] tape = Some (Inr (arrivals, rest))
    \<and> serve (mu_rate params) (c_servers params) arrivals
         (replicate (nat (c_servers params)) 0) [] rest = Some (Inr (wait_times, servers, tape'))
    \<and> res = \<lparr>total_arrivals = length arrivals, total_served = length wait_times,
             avg_wait_time_minutes = (if wait_times \<noteq> [] then np_mean wait_times * 60 else 0),
             max_wait_time_minutes = (if wait_times \<noteq> [] then np_max wait_times * 60 else 0),
             wait_times_sample = map (\<lambda>w. w * 60) (take 10 wait_times)\<rparr>"
proof -
  obtain T where T: "simulation_time params = Some T"
    using assms by (cases "simulation_time params") (simp_all add: simulate_queue_def Let_def)
  obtain arrivals rest where g:
    "gen_arrivals (lambda_rate params) T 0 [] tape = Some (Inr (arrivals, rest))"
  proof (cases "gen_arrivals (lambda_rate params) T 0 [] tape")
    case None
    then show ?thesis using assms T by (simp add: simulate_queue_def Let_def)
  next
    case (Some x)
    then show ?thesis
      using assms T that by (cases x) (auto simp: simulate_queue_def Let_def)
  qed
  obtain wait_times servers tape' where s:
    "serve (mu_rate params) (c_servers params) arrivals
       (replicate (nat (c_servers params)) 0) [] rest = Some (Inr (wait_times, servers, tape'))"
  proof (cases "serve (mu_rate params) (c_servers params) arrivals
       (replicate (nat (c_servers params)) 0) [] rest")
    case None
    then show ?thesis using assms T g by (simp add: simulate_queue_def Let_def)
  next
    case (Some x)
    then show ?thesis
      using assms T g that by (cases x) (auto simp: simulate_queue_def Let_def)
  qed
  have "res = \<lparr>total_arrivals = length arrivals, total_served = length wait_times,
             avg_wait_time_minutes = (if wait_times \<noteq> [] then np_mean wait_times * 60 else 0),
             max_wait_time_minutes = (if wait_times \<noteq> [] then np_max wait_times * 60 else 0),
             wait_times_sample = map (\<lambda>w. w * 60) (take 10 wait_times)\<rparr>"
    using assms T g s by (simp add: simulate_queue_def Let_def)
  with T g s show ?thesis by blast
qed

section \<open>Claim C8: the arrival stream stops at the horizon\<close>

text \<open>
  C8: in every run of \<open>simulate_queue\<close> the arrival times are the running sums, from time 0,
  of the interarrival gaps (the variates of the generator scaled by \<open>1 / \<lambda>\<close>), taken while
  they are strictly below the horizon: every recorded arrival is strictly before the
  horizon, and the first clock value that reaches or crosses it consumes a variate and is
  not recorded. The loop returns as soon as the tape holds a crossing, and the number of
  arrivals a run reports is the number of clock values before the first crossing. (That
  the variates are exponentially distributed is a property of the generator, outside the
  model.)
\<close>

theorem arrivals_before_horizon:
  "(gen_arrivals lam T 0 [] tape = Some (Inr (arrivals, rest)) \<longrightarrow>
       (\<forall>x\<in>set arrivals. x < T)
     \<and> (\<not> 0 < T \<longrightarrow> arrivals = [] \<and> rest = tape)
     \<and> (0 < T \<longrightarrow> 0 < lam
          \<and> arrivals = takeWhile (\<lambda>x. x < T) (running_clock 0 (interarrival_gaps lam tape))
          \<and> length arrivals < length tape
          \<and> T \<le> running_clock 0 (interarrival_gaps lam tape) ! length arrivals
          \<and> rest = drop (Suc (length arrivals)) tape))
   \<and> (0 < lam \<and> (\<exists>x\<in>set (running_clock 0 (interarrival_gaps lam tape)). T \<le> x)
        \<longrightarrow> (\<exists>r. gen_arrivals lam T 0 [] tape = Some (Inr r)))
   \<and> (simulate_queue params tape = Some (Inr res) \<and> simulation_time params = Some T
        \<longrightarrow> total_arrivals res =
             (if 0 < T
              then length (takeWhile (\<lambda>x. x < T)
                     (running_clock 0 (interarrival_gaps (lambda_rate params) tape)))
              else 0))"
proof (intro conjI)
  show "gen_arrivals lam T 0 [] tape = Some (Inr (arrivals, rest)) \<longrightarrow>
       (\<forall>x\<in>set arrivals. x < T)
     \<and> (\<not> 0 < T \<longrightarrow> arrivals = [] \<and> rest = tape)
     \<and> (0 < T \<longrightarrow> 0 < lam
          \<and> arrivals = takeWhile (\<lambda>x. x < T) (running_clock 0 (interarrival_gaps lam tape))
          \<and> length arrivals < length tape
          \<and> T \<le> running_clock 0 (interarrival_gaps lam tape) ! length arrivals
          \<and> rest = drop (Suc (length arrivals)) tape)"
    by (rule impI) (rule gen_arrivals_from_zero)
next
  show "0 < lam \<and> (\<exists>x\<in>set (running_clock 0 (interarrival_gaps lam tape)). T \<le> x)
        \<longrightarrow> (\<exists>r. gen_arrivals lam T 0 [] tape = Some (Inr r))"
  proof
    assume "0 < lam \<and> (\<exists>x\<in>set (running_clock 0 (interarrival_gaps lam tape)). T \<le> x)"
    then show "\<exists>r. gen_arrivals lam T 0 [] tape = Some (Inr r)"
      by (intro gen_arrivals_returns) simp_all
  qed
next
  show "simulate_queue params tape = Some (Inr res) \<and> simulation_time params = Some T
        \<longrightarrow> total_arrivals res =
             (if 0 < T
              then length (takeWhile (\<lambda>x. x < T)
                     (running_clock 0 (interarrival_gaps (lambda_rate params) tape)))
              else 0)"
  proof
    assume h: "simulate_queue params tape = Some (Inr res) \<and> simulation_time params = Some T"
    from h have sq: "simulate_queue params tape = Some (Inr res)"
      and st: "simulation_time params = Some T" by simp_all
    from simulate_queue_result [OF sq]
    obtain T' arrivals' rest' waits servers' tape''
      where "simulation_time params = Some T'"
        and "gen_arrivals (lambda_rate params) T' 0 [] tape = Some (Inr (arrivals', rest'))"
        and "res = \<lparr>total_arrivals = length arrivals', total_served = length waits,
             avg_wait_time_minutes = (if waits \<noteq> [] then np_mean waits * 60 else 0),
             max_wait_time_minutes = (if waits \<noteq> [] then np_max waits * 60 else 0),
             wait_times_sample = map (\<lambda>w. w * 60) (take 10 waits)\<rparr>"
      by blast
    with st have g: "gen_arrivals (lambda_rate params) T 0 [] tape
          = Some (Inr (arrivals', rest'))"
      and n: "total_arrivals res = length arrivals'"
      by simp_all
    show "total_arrivals res =
        (if 0 < T
         then length (takeWhile (\<lambda>x. x < T)
                (running_clock 0 (interarrival_gaps (lambda_rate params) tape)))
         else 0)"
      unfolding n by (rule gen_arrivals_count [OF g])
  qed
qed

text \<open>
  C8 at rate 1 and horizon 3: the clock runs 1, 3/2, 2, 4; three arrivals are recorded and
  the fourth variate is consumed by the crossing.
\<close>

theorem arrivals_before_horizon_witness:
  "gen_arrivals 1 3 0 [] [1, 1 / 2, 1 / 2, 2, 3, 1, 1, 7] = Some (Inr ([1, 3 / 2, 2], [3, 1, 1, 7]))"
proof -
  let ?tape = "[1, 1 / 2, 1 / 2, 2, 3, 1, 1, 7] :: real list"
  have clock: "running_clock 0 (interarrival_gaps 1 ?tape) = [1, 3 / 2, 2, 4, 7, 8, 9, 16]"
    by (simp add: interarrival_gaps_def)
  have "(0::real) < 1 \<and> (\<exists>x\<in>set (running_clock 0 (interarrival_gaps 1 ?tape)). 3 \<le> x)"
    unfolding clock by simp
  with arrivals_before_horizon [of 1 3 ?tape]
  obtain r where "gen_arrivals 1 3 0 [] ?tape = Some (Inr r)"
    by blast
  then obtain arrivals rest where g: "gen_arrivals 1 3 0 [] ?tape = Some (Inr (arrivals, rest))"
    by (cases r) auto
  with arrivals_before_horizon [of 1 3 ?tape arrivals rest]
  have "arrivals = takeWhile (\<lambda>x. x < 3) (running_clock 0 (interarrival_gaps 1 ?tape))"
    and "rest = drop (Suc (length arrivals)) ?tape"
    by simp_all
  then have "arrivals = [1, 3 / 2, 2]" "rest = [3, 1, 1, 7]"
    unfolding clock by simp_all
  with g show ?thesis by simp
qed

section \<open>Claim C10: every arrival is served\<close>



end
